theory Spec2Isabelle
  imports Complex_Main
begin

section \<open>The calendar page (src/unnamed/part_002, CalendarPage.jsx)\<close>

subsection \<open>Dates of the browser\<close>

text \<open>
  A JavaScript \<open>Date\<close> is its time value: the milliseconds since the epoch, an integer.
  Only valid dates are modelled (the time value of an Invalid Date is NaN, which compares
  false with everything). The local time zone is a fixed offset \<open>tz\<close> in
  milliseconds, local time being \<open>t + tz\<close>; changes of the offset during the year are
  not modelled.
\<close>

definition msPerDay :: int where
  "msPerDay = 86400000"

text \<open>\<open>d.setHours(0, 0, 0, 0)\<close>: the time value of the local midnight that starts the day of \<open>t\<close>.\<close>

definition setHours0 :: "int \<Rightarrow> int \<Rightarrow> int" where
  "setHours0 tz t = t - (t + tz) mod msPerDay"

text \<open>The local calendar day of a time value, as a day number: the date with the time of day dropped.\<close>

definition localDay :: "int \<Rightarrow> int \<Rightarrow> int" where
  "localDay tz t = (t + tz) div msPerDay"

text \<open>
  \<open>slotInfo\<close> and the calendar's events both carry a \<open>start\<close> and an \<open>end\<close> date
  (\<open>slotInfo.start\<close>, \<open>event.start\<close>, \<open>event.end\<close>); the other fields of an event
  are not read by the slot handler.
\<close>

record dateRange =
  rangeStart :: int
  rangeEnd :: int

subsection \<open>handleSelectSlot\<close>

text \<open>
  The handler either shows one of its two error toasts and returns, or stores the selected
  date and opens the reservation modal (\<open>setSelectedDate(slotInfo.start); setIsModalOpen(true)\<close>).
\<close>

datatype toastMessage = PastDateToast | BookedToast

datatype slotOutcome = ToastError toastMessage | OpenModal int

text \<open>
  \<open>events.some(event => ...)\<close>: both ends of the event are moved to their local midnight,
  the selected start is compared as it is.
\<close>

definition isBooked :: "int \<Rightarrow> dateRange list \<Rightarrow> dateRange \<Rightarrow> bool" where
  "isBooked tz events slotInfo =
     list_ex (\<lambda>event.
        let eventStart = setHours0 tz (rangeStart event);
            eventEnd = setHours0 tz (rangeEnd event)
        in rangeStart slotInfo \<ge> eventStart \<and> rangeStart slotInfo < eventEnd) events"

text \<open>\<open>now\<close> is the value of \<open>new Date()\<close> when the handler runs.\<close>

definition handleSelectSlot :: "int \<Rightarrow> int \<Rightarrow> dateRange list \<Rightarrow> dateRange \<Rightarrow> slotOutcome" where
  "handleSelectSlot tz now events slotInfo =
     (let hoje = setHours0 tz now in
      if rangeStart slotInfo < hoje then ToastError PastDateToast
      else if isBooked tz events slotInfo then ToastError BookedToast
      else OpenModal (rangeStart slotInfo))"

subsection \<open>The overlap rule, in the spec's words\<close>

text \<open>
  The rule the slot check is compared with, as section 4.1 of the spec words it: "Two
  intervals \<open>[s1,e1)\<close> and \<open>[s2,e2)\<close> overlap iff \<open>s1 < e2 AND s2 < e1\<close>." Dates are day
  numbers and an interval is half-open. The source has no test of two intervals; its
  check takes the selected start date only.
\<close>

definition overlaps :: "int \<Rightarrow> int \<Rightarrow> int \<Rightarrow> int \<Rightarrow> bool" where
  "overlaps s1 e1 s2 e2 = (s1 < e2 \<and> s2 < e1)"

subsection \<open>currentUserData\<close>

text \<open>
  A value that \<open>===\<close> compares: the ids of the logged-in user and of a member's user.
  \<open>undefined\<close> and \<open>null\<close> are values of their own, and \<open>NaN\<close> equals nothing, itself
  included; a number is the real it denotes.
\<close>

datatype jsValue =
    JSUndefined | JSNull | JSNaN | JSNumber real | JSString string | JSBoolean bool

definition strictEquals :: "jsValue \<Rightarrow> jsValue \<Rightarrow> bool" where
  "strictEquals a b = (a = b \<and> a \<noteq> JSNaN)"

text \<open>The error of reading a property of \<open>null\<close> or \<open>undefined\<close>.\<close>

datatype jsError = TypeError

text \<open>
  The objects the memo reads. A field the code guards with \<open>?.\<close> or \<open>??\<close> may be absent
  (\<open>undefined\<close> or \<open>null\<close>, which the guard does not tell apart) and is an option. An entry
  of the member list is an object, or \<open>null\<close> or \<open>undefined\<close> (\<open>None\<close>): the code reads
  \<open>m.usuario\<close> with no guard on \<open>m\<close>. The member list, when present, is an array; a
  balance, when present, is a number, modelled by the real it denotes. The derived object
  has the keys \<open>isMaster\<close>, \<open>saldoDiariasAtual\<close> and \<open>saldoDiariasFuturo\<close>; the two
  balances are the fields \<open>saldoAtual\<close> and \<open>saldoFuturo\<close> of \<open>userData\<close> here, after the
  props of the card they are passed to, since a member's record has fields of the former
  names already.
\<close>

record usuario =
  usuarioId :: jsValue

record userLink =
  linkUsuario :: "usuario option"
  permissao :: "string option"
  saldoDiariasAtual :: "real option"
  saldoDiariasFuturo :: "real option"

record property =
  usuarios :: "userLink option list option"

record userData =
  isMaster :: bool
  saldoAtual :: real
  saldoFuturo :: real

text \<open>\<open>m.usuario?.id\<close>: \<open>undefined\<close> when the member has no user.\<close>

definition linkUserId :: "userLink \<Rightarrow> jsValue" where
  "linkUserId m = (case linkUsuario m of None \<Rightarrow> JSUndefined | Some u \<Rightarrow> usuarioId u)"

text \<open>
  \<open>array.find(m => m.usuario?.id === id)\<close>: the entries are visited in order up to the
  first match; the callback raises a TypeError on an entry that is \<open>null\<close> or \<open>undefined\<close>.
\<close>

fun findLink :: "jsValue \<Rightarrow> userLink option list \<Rightarrow> jsError + userLink option" where
  "findLink uid [] = Inr None"
| "findLink uid (None # ms) = Inl TypeError"
| "findLink uid (Some m # ms) =
     (if strictEquals (linkUserId m) uid then Inr (Some m) else findLink uid ms)"

text \<open>\<open>property.usuarios?.find(m => m.usuario?.id === usuario.id)\<close>\<close>

definition findUserLink :: "property \<Rightarrow> usuario \<Rightarrow> jsError + userLink option" where
  "findUserLink p u =
     (case usuarios p of
        None \<Rightarrow> Inr None
      | Some ms \<Rightarrow> findLink (usuarioId u) ms)"

text \<open>The member list the lookup runs over: \<open>property.usuarios\<close>, with no entry when the field is absent.\<close>

definition memberList :: "property \<Rightarrow> userLink option list" where
  "memberList p = (case usuarios p of None \<Rightarrow> [] | Some ms \<Rightarrow> ms)"

text \<open>The memo's value, or the error its lookup raises.\<close>

definition currentUserData :: "property option \<Rightarrow> usuario option \<Rightarrow> jsError + userData" where
  "currentUserData prop usr =
     (case (prop, usr) of
        (Some p, Some u) \<Rightarrow>
          (case findUserLink p u of
             Inl e \<Rightarrow> Inl e
           | Inr link \<Rightarrow>
               Inr \<lparr> isMaster = (case link of None \<Rightarrow> False
                                 | Some l \<Rightarrow> permissao l = Some ''proprietario_master''),
                     saldoAtual = (case link of None \<Rightarrow> 0
                                   | Some l \<Rightarrow> (case saldoDiariasAtual l of None \<Rightarrow> 0 | Some v \<Rightarrow> v)),
                     saldoFuturo = (case link of None \<Rightarrow> 0
                                    | Some l \<Rightarrow> (case saldoDiariasFuturo l of None \<Rightarrow> 0 | Some v \<Rightarrow> v)) \<rparr>)
      | _ \<Rightarrow> Inr \<lparr> isMaster = False, saldoAtual = 0, saldoFuturo = 0 \<rparr>)"

subsection \<open>UserBalanceCard\<close>

text \<open>
  The card renders two rows, each a label year and a number: \<open>Saldo {anoAtual}:\<close> with
  \<open>Math.floor(saldoAtual)\<close> and \<open>Saldo {anoFuturo}:\<close> with \<open>Math.floor(saldoFuturo)\<close>.
  \<open>anoAtual\<close> is \<open>new Date().getFullYear()\<close>, a parameter here.
\<close>

definition UserBalanceCard :: "int \<Rightarrow> real \<Rightarrow> real \<Rightarrow> (int \<times> int) list" where
  "UserBalanceCard anoAtual saldoAtual' saldoFuturo' =
     (let anoFuturo = anoAtual + 1 in
      [(anoAtual, \<lfloor>saldoAtual'\<rfloor>), (anoFuturo, \<lfloor>saldoFuturo'\<rfloor>)])"

section \<open>The reservation engine of the specification\<close>

subsection \<open>Data model\<close>

text \<open>
  Modelled from the spec: the data model of section 3. The engine (Balance Ledger, Conflict
  Index, Reservation Manager, Possession State Machine) is not among the source files; the
  source holds the calendar page only, which calls it through the API.
\<close>

type_synonym propertyId = nat
type_synonym userId = nat
type_synonym reservationId = nat
type_synonym itemId = nat

text \<open>
  Modelled from the spec: a calendar date, read by its year (\<open>start.year\<close>) and by the
  number of days between two dates (\<open>nights = end - start\<close>). \<open>dayNumber\<close> counts the days
  since 1970-01-01 in the Gregorian calendar.
\<close>

record date =
  year :: int
  month :: int
  day :: int

definition dayNumber :: "date \<Rightarrow> int" where
  "dayNumber d =
     (let y = (if month d \<le> 2 then year d - 1 else year d);
          era = y div 400;
          yoe = y - era * 400;
          mp = (month d + 9) mod 12;
          doy = (153 * mp + 2) div 5 + day d - 1;
          doe = yoe * 365 + yoe div 4 - yoe div 100 + doy
      in era * 146097 + doe - 719468)"

datatype error =
    PastDateError | StayLengthError | YearOutOfRange | PenaltyBlockError | DateConflictError
  | InsufficientBalance | NotCancellable | AlreadySubmitted | InventoryEmptyError
  | PossessionStateError | ConcurrencyAborted

datatype permissionLevel = MASTER | COMMON

record membership =
  permissionLevel :: permissionLevel
  fractionCount :: nat
  balanceCurrentYear :: int
  balanceNextYear :: int

datatype status = PENDING | CONFIRMED | CANCELLED | COMPLETED

record reservation =
  propertyId :: propertyId
  requesterId :: userId
  startDate :: date
  endDate :: date
  status :: status
  debitYear :: int
  nightsCharged :: int

record rules =
  minStayNights :: int
  maxStayNights :: int

datatype condition = OK | WORN | DAMAGED | MISSING

record penalty =
  penaltyUser :: userId
  penaltyProperty :: propertyId
  reason :: "(itemId \<times> condition) list"
  active :: bool
  createdAt :: date

datatype phase = CHECKIN | CHECKOUT

record checklistRecord =
  checklistReservation :: reservationId
  phase :: phase
  entries :: "(itemId \<times> condition) list"
  freeText :: string
  submittedBy :: userId
  timestamp :: date

datatype possessionState = AWAITING_CHECKIN | CHECKED_IN | POSSESSION_COMPLETED

text \<open>
  Modelled from the spec: an interval of the Conflict Index (section 4.1); it carries the
  reservation it belongs to, which \<open>remove\<close> names.
\<close>

record indexEntry =
  entryProperty :: propertyId
  entryReservation :: reservationId
  entryStart :: date
  entryEnd :: date

text \<open>
  Modelled from the spec: what the engine consumes from its external collaborators
  (section 6): the current date, the rules store and the inventory snapshot.
\<close>

record env =
  today :: date
  getRules :: "propertyId \<Rightarrow> rules"
  listInventory :: "propertyId \<Rightarrow> itemId list"

text \<open>
  Modelled from the spec: the state the engine owns. The spec's operations take the
  Membership of a (property, user) pair as given and name no error for a missing one, so
  the ledger is a total function. Checklist records are kept in the order of their
  creation, oldest first.
\<close>

record engine =
  conflictIndex :: "indexEntry list"
  ledger :: "propertyId \<times> userId \<Rightarrow> membership"
  reservations :: "reservationId \<Rightarrow> reservation option"
  penalties :: "penalty list"
  checklists :: "checklistRecord list"
  possession :: "reservationId \<Rightarrow> possessionState"
  nextId :: reservationId

text \<open>
  Modelled from the spec: the state before any request: the given memberships and
  penalties, nothing reserved, no checklist record, every possession awaiting check-in.
\<close>

definition initial :: "(propertyId \<times> userId \<Rightarrow> membership) \<Rightarrow> penalty list \<Rightarrow> engine" where
  "initial l ps =
     \<lparr> conflictIndex = [], ledger = l, reservations = (\<lambda>_. None), penalties = ps,
       checklists = [], possession = (\<lambda>_. AWAITING_CHECKIN), nextId = 0 \<rparr>"

subsection \<open>Conflict Index operations\<close>

text \<open>
  Modelled from the spec: \<open>query\<close> of section 4.1: does \<open>[s, e)\<close> overlap an interval on
  record for the property?
\<close>

definition queryIndex :: "indexEntry list \<Rightarrow> propertyId \<Rightarrow> date \<Rightarrow> date \<Rightarrow> bool" where
  "queryIndex idx pid s e =
     list_ex (\<lambda>x. entryProperty x = pid \<and>
                   overlaps (dayNumber s) (dayNumber e)
                     (dayNumber (entryStart x)) (dayNumber (entryEnd x))) idx"

text \<open>Modelled from the spec: \<open>insert\<close> of section 4.1.\<close>

definition insertIndex ::
  "indexEntry list \<Rightarrow> propertyId \<Rightarrow> reservationId \<Rightarrow> date \<Rightarrow> date \<Rightarrow> indexEntry list" where
  "insertIndex idx pid rid s e =
     idx @ [\<lparr> entryProperty = pid, entryReservation = rid, entryStart = s, entryEnd = e \<rparr>]"

text \<open>Modelled from the spec: \<open>remove\<close> of section 4.1.\<close>

definition removeIndex :: "indexEntry list \<Rightarrow> propertyId \<Rightarrow> reservationId \<Rightarrow> indexEntry list" where
  "removeIndex idx pid rid =
     filter (\<lambda>x. \<not> (entryProperty x = pid \<and> entryReservation x = rid)) idx"

subsection \<open>Balance Ledger\<close>

text \<open>
  Modelled from the spec: \<open>availableNights\<close> of section 4.2. \<open>thisYear\<close> is the current
  calendar year.
\<close>

definition availableNights :: "int \<Rightarrow> membership \<Rightarrow> int \<Rightarrow> error + int" where
  "availableNights thisYear m y =
     (if y = thisYear then Inr (balanceCurrentYear m)
      else if y = thisYear + 1 then Inr (balanceNextYear m)
      else Inl YearOutOfRange)"

text \<open>
  Modelled from the spec: \<open>debit\<close> of section 4.2: InsufficientBalance when the nights
  exceed what is available, else the matching bucket is decremented.
\<close>

definition debit :: "int \<Rightarrow> membership \<Rightarrow> int \<Rightarrow> int \<Rightarrow> error + membership" where
  "debit thisYear m y nights =
     (case availableNights thisYear m y of
        Inl e \<Rightarrow> Inl e
      | Inr a \<Rightarrow>
          if nights > a then Inl InsufficientBalance
          else if y = thisYear then Inr (m\<lparr>balanceCurrentYear := a - nights\<rparr>)
          else Inr (m\<lparr>balanceNextYear := a - nights\<rparr>))"

text \<open>
  Modelled from the spec: \<open>credit\<close> of section 4.2, with no ceiling. The spec names no
  failure of \<open>credit\<close>; a year that is neither bucket has nothing to credit and leaves the
  membership as it is.
\<close>

definition credit :: "int \<Rightarrow> membership \<Rightarrow> int \<Rightarrow> int \<Rightarrow> membership" where
  "credit thisYear m y nights =
     (if y = thisYear then m\<lparr>balanceCurrentYear := balanceCurrentYear m + nights\<rparr>
      else if y = thisYear + 1 then m\<lparr>balanceNextYear := balanceNextYear m + nights\<rparr>
      else m)"

subsection \<open>Reservation Manager\<close>

text \<open>Modelled from the spec: check 4 of section 4.3, an active Penalty of the user for the property.\<close>

definition hasActivePenalty :: "penalty list \<Rightarrow> userId \<Rightarrow> propertyId \<Rightarrow> bool" where
  "hasActivePenalty ps uid pid =
     list_ex (\<lambda>p. penaltyUser p = uid \<and> penaltyProperty p = pid \<and> active p) ps"

text \<open>
  Modelled from the spec: the commit of section 4.3, steps (a) to (c): insert into the
  Conflict Index, debit the ledger, create the reservation as CONFIRMED with
  \<open>debitYear = start.year\<close> and \<open>nightsCharged = nights\<close>. A failure of the debit after
  step (a) rolls (a) back.
\<close>

definition commit ::
  "env \<Rightarrow> engine \<Rightarrow> propertyId \<Rightarrow> userId \<Rightarrow> date \<Rightarrow> date \<Rightarrow> int
     \<Rightarrow> (error + reservation) \<times> engine" where
  "commit en st pid uid start finish nights =
     (let rid = nextId st;
          idx = insertIndex (conflictIndex st) pid rid start finish
      in case debit (year (today en)) (ledger st (pid, uid)) (year start) nights of
           Inl e \<Rightarrow> (Inl e, st\<lparr>conflictIndex := removeIndex idx pid rid\<rparr>)
         | Inr m \<Rightarrow>
             (let res = \<lparr> propertyId = pid, requesterId = uid, startDate = start,
                          endDate = finish, status = CONFIRMED, debitYear = year start,
                          nightsCharged = nights \<rparr>
              in (Inr res,
                  st\<lparr> conflictIndex := idx,
                      ledger := (ledger st)((pid, uid) := m),
                      reservations := (reservations st)(rid := Some res),
                      nextId := Suc rid \<rparr>)))"

text \<open>
  Modelled from the spec: \<open>requestReservation\<close> of section 4.3, its six checks in the
  order they are listed, then the commit. The result is returned with the state the call
  leaves behind.
\<close>

definition requestReservation ::
  "env \<Rightarrow> engine \<Rightarrow> propertyId \<Rightarrow> userId \<Rightarrow> date \<Rightarrow> date \<Rightarrow> nat
     \<Rightarrow> (error + reservation) \<times> engine" where
  "requestReservation en st pid uid start finish guestCount =
     (let thisYear = year (today en);
          nights = dayNumber finish - dayNumber start
      in if dayNumber start < dayNumber (today en) then (Inl PastDateError, st)
         else if nights < minStayNights (getRules en pid) \<or> maxStayNights (getRules en pid) < nights
           then (Inl StayLengthError, st)
         else if \<not> (year start = thisYear \<or> year start = thisYear + 1) \<or>
                 \<not> (year finish = thisYear \<or> year finish = thisYear + 1)
           then (Inl YearOutOfRange, st)
         else if hasActivePenalty (penalties st) uid pid then (Inl PenaltyBlockError, st)
         else if queryIndex (conflictIndex st) pid start finish then (Inl DateConflictError, st)
         else (case availableNights thisYear (ledger st (pid, uid)) (year start) of
                 Inl e \<Rightarrow> (Inl e, st)
               | Inr a \<Rightarrow>
                   if a < nights then (Inl InsufficientBalance, st)
                   else commit en st pid uid start finish nights))"

text \<open>
  Modelled from the spec: when section 4.3 allows a cancellation: the status is PENDING or
  CONFIRMED and the caller is the requester or a MASTER member of the property.
\<close>

definition cancellable :: "engine \<Rightarrow> reservation \<Rightarrow> userId \<Rightarrow> bool" where
  "cancellable st r byUserId =
     ((status r = PENDING \<or> status r = CONFIRMED) \<and>
      (byUserId = requesterId r \<or>
       permissionLevel (ledger st (propertyId r, byUserId)) = MASTER))"

text \<open>
  Modelled from the spec: \<open>cancelReservation\<close> of section 4.3. An unknown reservation is
  not cancellable either.
\<close>

definition cancelReservation ::
  "env \<Rightarrow> engine \<Rightarrow> reservationId \<Rightarrow> userId \<Rightarrow> (error + unit) \<times> engine" where
  "cancelReservation en st rid byUserId =
     (case reservations st rid of
        None \<Rightarrow> (Inl NotCancellable, st)
      | Some r \<Rightarrow>
          if cancellable st r byUserId
          then (Inr (),
                st\<lparr> conflictIndex := removeIndex (conflictIndex st) (propertyId r) rid,
                    ledger := (ledger st)
                      ((propertyId r, requesterId r) :=
                         credit (year (today en)) (ledger st (propertyId r, requesterId r))
                           (debitYear r) (nightsCharged r)),
                    reservations := (reservations st)(rid := Some (r\<lparr>status := CANCELLED\<rparr>)) \<rparr>)
          else (Inl NotCancellable, st))"

subsection \<open>Possession State Machine\<close>

text \<open>Modelled from the spec: a ChecklistRecord of the phase exists for the reservation.\<close>

definition hasRecord :: "checklistRecord list \<Rightarrow> reservationId \<Rightarrow> phase \<Rightarrow> bool" where
  "hasRecord cks rid ph = list_ex (\<lambda>c. checklistReservation c = rid \<and> phase c = ph) cks"

text \<open>
  Modelled from the spec: \<open>canCheckin\<close> of section 4.4. The inventory snapshot is the one
  of the reservation's property.
\<close>

definition canCheckin :: "env \<Rightarrow> engine \<Rightarrow> reservationId \<Rightarrow> userId \<Rightarrow> bool" where
  "canCheckin en st rid caller =
     (case reservations st rid of
        None \<Rightarrow> False
      | Some r \<Rightarrow>
          status r = CONFIRMED \<and> caller = requesterId r \<and>
          \<not> hasRecord (checklists st) rid CHECKIN \<and>
          listInventory en (propertyId r) \<noteq> [])"

text \<open>Modelled from the spec: \<open>canCheckout\<close> of section 4.4.\<close>

definition canCheckout :: "engine \<Rightarrow> reservationId \<Rightarrow> bool" where
  "canCheckout st rid =
     (possession st rid = CHECKED_IN \<and> \<not> hasRecord (checklists st) rid CHECKOUT)"

text \<open>
  Modelled from the spec: a free-text note is mandatory whenever an item is not OK
  (section 4.4).
\<close>

definition noteGiven :: "(itemId \<times> condition) list \<Rightarrow> string \<Rightarrow> bool" where
  "noteGiven items txt = (list_all (\<lambda>x. snd x = OK) items \<or> txt \<noteq> [])"

text \<open>Modelled from the spec: the reported items are items of the current inventory (section 6).\<close>

definition itemsKnown :: "env \<Rightarrow> propertyId \<Rightarrow> (itemId \<times> condition) list \<Rightarrow> bool" where
  "itemsKnown en pid items = list_all (\<lambda>x. fst x \<in> set (listInventory en pid)) items"

text \<open>
  Modelled from the spec: \<open>submitCheckin\<close> of section 4.4, by its effect on the state. A
  submission that is not allowed leaves the state as it is; which error kind it reports is
  not modelled (the spec names none for a missing note or an unknown item).
\<close>

definition submitCheckin ::
  "env \<Rightarrow> engine \<Rightarrow> reservationId \<Rightarrow> userId \<Rightarrow> (itemId \<times> condition) list \<Rightarrow> string \<Rightarrow> engine" where
  "submitCheckin en st rid caller items txt =
     (case reservations st rid of
        None \<Rightarrow> st
      | Some r \<Rightarrow>
          if canCheckin en st rid caller \<and> itemsKnown en (propertyId r) items \<and> noteGiven items txt
          then st\<lparr> checklists := checklists st @
                      [\<lparr> checklistReservation = rid, phase = CHECKIN, entries = items,
                         freeText = txt, submittedBy = caller, timestamp = today en \<rparr>],
                    possession := (possession st)(rid := CHECKED_IN) \<rparr>
          else st)"

text \<open>Modelled from the spec: the condition an item had in the CHECKIN record of the reservation.\<close>

definition checkinCondition :: "checklistRecord list \<Rightarrow> reservationId \<Rightarrow> itemId \<Rightarrow> condition option" where
  "checkinCondition cks rid i =
     (case find (\<lambda>c. checklistReservation c = rid \<and> phase c = CHECKIN) cks of
        None \<Rightarrow> None
      | Some c \<Rightarrow> map_of (entries c) i)"

text \<open>
  Modelled from the spec: the items newly DAMAGED or MISSING (section 4.4): reported so at
  check-out and not so at check-in.
\<close>

definition regressions ::
  "checklistRecord list \<Rightarrow> reservationId \<Rightarrow> (itemId \<times> condition) list \<Rightarrow> (itemId \<times> condition) list" where
  "regressions cks rid items =
     filter (\<lambda>x. (snd x = DAMAGED \<or> snd x = MISSING) \<and> checkinCondition cks rid (fst x) \<noteq> Some (snd x))
       items"

text \<open>
  Modelled from the spec: \<open>submitCheckout\<close> of section 4.4, by its effect on the state: the
  CHECKOUT record, the reservation COMPLETED, and a Penalty against the requester when an
  item regressed. A submission that is not allowed leaves the state as it is.
\<close>

definition submitCheckout ::
  "env \<Rightarrow> engine \<Rightarrow> reservationId \<Rightarrow> userId \<Rightarrow> (itemId \<times> condition) list \<Rightarrow> string \<Rightarrow> engine" where
  "submitCheckout en st rid caller items txt =
     (case reservations st rid of
        None \<Rightarrow> st
      | Some r \<Rightarrow>
          if canCheckout st rid \<and> itemsKnown en (propertyId r) items \<and> noteGiven items txt
          then st\<lparr> checklists := checklists st @
                      [\<lparr> checklistReservation = rid, phase = CHECKOUT, entries = items,
                         freeText = txt, submittedBy = caller, timestamp = today en \<rparr>],
                    possession := (possession st)(rid := POSSESSION_COMPLETED),
                    reservations := (reservations st)(rid := Some (r\<lparr>status := COMPLETED\<rparr>)),
                    penalties := penalties st @
                      (if regressions (checklists st) rid items = [] then []
                       else [\<lparr> penaltyUser = requesterId r, penaltyProperty = propertyId r,
                               reason = regressions (checklists st) rid items, active = True,
                               createdAt = today en \<rparr>]) \<rparr>
          else st)"

subsection \<open>Reachable states\<close>

text \<open>
  Modelled from the spec: the states of the engine: an initial state (any ledger and any
  penalties on record, no reservation, no checklist record, every possession awaiting
  check-in) and what the four state-changing operations of section 6 make of a reachable
  state, called with any arguments under any environment.
\<close>

inductive reachable :: "engine \<Rightarrow> bool" where
  init: "reachable (initial l ps)"
| request: "reachable st \<Longrightarrow> reachable (snd (requestReservation en st pid uid start finish g))"
| cancel: "reachable st \<Longrightarrow> reachable (snd (cancelReservation en st rid byUserId))"
| checkin: "reachable st \<Longrightarrow> reachable (submitCheckin en st rid caller items txt)"
| checkout: "reachable st \<Longrightarrow> reachable (submitCheckout en st rid caller items txt)"

text \<open>
  Modelled from the spec: the invariant of section 3 on checklist records: every CHECKOUT
  record has a CHECKIN record of the same reservation before it in the log.
\<close>

definition checkoutsPreceded :: "checklistRecord list \<Rightarrow> bool" where
  "checkoutsPreceded cks =
     (\<forall>i < length cks. phase (cks ! i) = CHECKOUT \<longrightarrow>
        (\<exists>j < i. phase (cks ! j) = CHECKIN \<and>
                 checklistReservation (cks ! j) = checklistReservation (cks ! i)))"

subsection \<open>The scenarios of section 8\<close>

text \<open>
  The membership, rules and date of the scenarios (and of the calendar page's test):
  balances 10 and 20, stays of 1 to 15 nights, today 2025-01-15; an inventory of two items.
\<close>

definition scenarioMembership :: membership where
  "scenarioMembership =
     \<lparr> permissionLevel = COMMON, fractionCount = 1, balanceCurrentYear = 10, balanceNextYear = 20 \<rparr>"

definition scenarioEnv :: env where
  "scenarioEnv =
     \<lparr> today = \<lparr>year = 2025, month = 1, day = 15\<rparr>,
       getRules = (\<lambda>_. \<lparr>minStayNights = 1, maxStayNights = 15\<rparr>),
       listInventory = (\<lambda>_. [1, 2]) \<rparr>"

definition scenarioState :: engine where
  "scenarioState = initial (\<lambda>_. scenarioMembership) []"

definition mkDate :: "int \<Rightarrow> int \<Rightarrow> int \<Rightarrow> date" where
  "mkDate y m d = \<lparr>year = y, month = m, day = d\<rparr>"

text \<open>
  Scenario A and what follows it: user 1 books 2025-10-10 to 2025-10-15 (reservation 0),
  checks in with both items OK and checks out reporting item 2 DAMAGED.
\<close>

definition scenarioBooked :: engine where
  "scenarioBooked =
     snd (requestReservation scenarioEnv scenarioState 1 1 (mkDate 2025 10 10) (mkDate 2025 10 15) 2)"

definition scenarioCheckedIn :: engine where
  "scenarioCheckedIn = submitCheckin scenarioEnv scenarioBooked 0 1 [(1, OK), (2, OK)] []"

definition scenarioCheckedOut :: engine where
  "scenarioCheckedOut =
     submitCheckout scenarioEnv scenarioCheckedIn 0 1 [(1, OK), (2, DAMAGED)] ''vidro quebrado''"

text \<open>
  The invariant of the possession machine: check-outs follow their check-ins in the log,
  and a possession that is CHECKED_IN has its CHECKIN record.
\<close>

definition possessionInv :: "engine \<Rightarrow> bool" where
  "possessionInv st =
     (checkoutsPreceded (checklists st) \<and>
      (\<forall>rid. possession st rid = CHECKED_IN \<longrightarrow> hasRecord (checklists st) rid CHECKIN))"

section \<open>Properties of the calendar page\<close>

subsection \<open>Comparing with a local midnight compares days\<close>

lemma mult_le_iff_le_div:
  fixes d k x :: int
  assumes "0 < d"
  shows "(k * d \<le> x) = (k \<le> x div d)"
proof
  assume "k * d \<le> x"
  then have "(k * d) div d \<le> x div d"
    using assms by (rule zdiv_mono1)
  then show "k \<le> x div d"
    using assms by simp
next
  assume "k \<le> x div d"
  then have "k * d \<le> (x div d) * d"
    using assms by (simp add: mult_right_mono)
  also have "(x div d) * d \<le> x"
    using assms by (simp add: minus_mod_eq_div_mult [symmetric])
  finally show "k * d \<le> x" .
qed

lemma setHours0_eq: "setHours0 tz e = localDay tz e * msPerDay - tz"
  unfolding setHours0_def localDay_def
  by (simp add: minus_mod_eq_div_mult [symmetric])

text \<open>
  The handler never truncates \<open>slotInfo.start\<close>, but a time value is at or after the
  midnight of \<open>e\<close>'s day exactly when its own day is not earlier than \<open>e\<close>'s day.
\<close>

lemma ge_setHours0: "(setHours0 tz e \<le> s) = (localDay tz e \<le> localDay tz s)"
proof -
  have pos: "0 < msPerDay" by (simp add: msPerDay_def)
  have "(localDay tz e * msPerDay \<le> s + tz) = (localDay tz e \<le> (s + tz) div msPerDay)"
    using pos by (rule mult_le_iff_le_div)
  then show ?thesis unfolding setHours0_eq localDay_def by auto
qed

lemma lt_setHours0: "(s < setHours0 tz e) = (localDay tz s < localDay tz e)"
  using ge_setHours0 [of tz e s] by linarith

lemma isBooked_days:
  "isBooked tz events slotInfo =
     (\<exists>event \<in> set events.
        localDay tz (rangeStart event) \<le> localDay tz (rangeStart slotInfo) \<and>
        localDay tz (rangeStart slotInfo) < localDay tz (rangeEnd event))"
  by (simp add: isBooked_def list_ex_iff Let_def ge_setHours0 lt_setHours0)

lemma handleSelectSlot_cases:
  "handleSelectSlot tz now events slotInfo =
     (if localDay tz (rangeStart slotInfo) < localDay tz now then ToastError PastDateToast
      else if isBooked tz events slotInfo then ToastError BookedToast
      else OpenModal (rangeStart slotInfo))"
  by (simp add: handleSelectSlot_def Let_def lt_setHours0)

subsection \<open>The past-date check\<close>

text \<open>
  Claim C4. A selected start whose local date is earlier than today's is rejected with the
  past-date error, whatever the times of day; a start on today's date, at any time of day,
  passes this check. The handler answers with the past-date toast exactly when the day of
  \<open>slotInfo.start\<close> is before the day of \<open>now\<close>.
\<close>

theorem handleSelectSlot_past_date:
  "(handleSelectSlot tz now events slotInfo = ToastError PastDateToast) =
     (localDay tz (rangeStart slotInfo) < localDay tz now)"
  by (simp add: handleSelectSlot_cases)

text \<open>
  With \<open>now\<close> at noon of day 1: the last millisecond of day 0 is rejected, the midnight
  that starts day 1 (twelve hours before \<open>now\<close>) is not.
\<close>

theorem handleSelectSlot_past_date_witness:
  "handleSelectSlot 0 129600000 [] \<lparr>rangeStart = 86399999, rangeEnd = 172800000\<rparr>
      = ToastError PastDateToast \<and>
   handleSelectSlot 0 129600000 [] \<lparr>rangeStart = 86400000, rangeEnd = 172800000\<rparr>
      \<noteq> ToastError PastDateToast"
  using handleSelectSlot_past_date [of 0 129600000 "[]" "\<lparr>rangeStart = 86399999, rangeEnd = 172800000\<rparr>"]
    handleSelectSlot_past_date [of 0 129600000 "[]" "\<lparr>rangeStart = 86400000, rangeEnd = 172800000\<rparr>"]
  by (simp add: localDay_def msPerDay_def)

subsection \<open>The conflict test\<close>

lemma queryIndex_iff:
  "queryIndex idx pid a b =
     (\<exists>x \<in> set idx. entryProperty x = pid \<and>
        overlaps (dayNumber a) (dayNumber b) (dayNumber (entryStart x)) (dayNumber (entryEnd x)))"
  by (simp add: queryIndex_def list_ex_iff)

text \<open>
  Claim C1. Two half-open intervals overlap iff \<open>s1 < e2\<close> and \<open>s2 < e1\<close>, and the query of
  the Conflict Index reports a conflict for \<open>[a, b)\<close> exactly when an interval on record for
  the same property overlaps it so; a stay that starts on the day another one of the
  property ends, or ends on the day it starts, does not conflict. The slot handler's check
  of the code rejects the selected start exactly when its day lies in
  \<open>[day of event.start, day of event.end)\<close> for some event, which is the overlap test
  applied to the single night that starts on the selected day; the day an event ends on is
  accepted.
\<close>

theorem slot_conflict_test:
  "overlaps sa ea sb eb = (sa < eb \<and> sb < ea) \<and>
   \<not> overlaps sa D D eb \<and>
   queryIndex idx pid a b =
     (\<exists>x \<in> set idx. entryProperty x = pid \<and>
        overlaps (dayNumber a) (dayNumber b) (dayNumber (entryStart x)) (dayNumber (entryEnd x))) \<and>
   queryIndex idx pid a b =
     (\<exists>x \<in> set idx. entryProperty x = pid \<and>
        dayNumber a < dayNumber (entryEnd x) \<and> dayNumber (entryStart x) < dayNumber b) \<and>
   \<not> queryIndex [x] (entryProperty x) (entryEnd x) b \<and>
   \<not> queryIndex [x] (entryProperty x) a (entryStart x) \<and>
   isBooked tz events slotInfo =
     (\<exists>event \<in> set events.
        localDay tz (rangeStart slotInfo) \<in>
          {localDay tz (rangeStart event) ..< localDay tz (rangeEnd event)}) \<and>
   isBooked tz events slotInfo =
     (\<exists>event \<in> set events.
        overlaps (localDay tz (rangeStart slotInfo)) (localDay tz (rangeStart slotInfo) + 1)
          (localDay tz (rangeStart event)) (localDay tz (rangeEnd event))) \<and>
   (handleSelectSlot tz now events slotInfo = ToastError BookedToast) =
     (localDay tz now \<le> localDay tz (rangeStart slotInfo) \<and> isBooked tz events slotInfo) \<and>
   \<not> isBooked tz [event] (slotInfo\<lparr>rangeStart := rangeEnd event\<rparr>)"
proof -
  have q: "queryIndex idx pid a b =
     (\<exists>x \<in> set idx. entryProperty x = pid \<and>
        dayNumber a < dayNumber (entryEnd x) \<and> dayNumber (entryStart x) < dayNumber b)"
    by (simp add: queryIndex_iff overlaps_def)
  have e: "\<not> queryIndex [x] (entryProperty x) (entryEnd x) b"
    and f: "\<not> queryIndex [x] (entryProperty x) a (entryStart x)"
    by (simp_all add: queryIndex_iff overlaps_def)
  have c: "isBooked tz events slotInfo =
     (\<exists>event \<in> set events.
        localDay tz (rangeStart slotInfo) \<in>
          {localDay tz (rangeStart event) ..< localDay tz (rangeEnd event)})"
    by (simp add: isBooked_days)
  have d: "isBooked tz events slotInfo =
     (\<exists>event \<in> set events.
        overlaps (localDay tz (rangeStart slotInfo)) (localDay tz (rangeStart slotInfo) + 1)
          (localDay tz (rangeStart event)) (localDay tz (rangeEnd event)))"
    by (auto simp add: isBooked_days overlaps_def)
  have h: "(handleSelectSlot tz now events slotInfo = ToastError BookedToast) =
     (localDay tz now \<le> localDay tz (rangeStart slotInfo) \<and> isBooked tz events slotInfo)"
    by (auto simp add: handleSelectSlot_cases)
  have g: "\<not> isBooked tz [event] (slotInfo\<lparr>rangeStart := rangeEnd event\<rparr>)"
    by (simp add: isBooked_days)
  have o: "overlaps sa ea sb eb = (sa < eb \<and> sb < ea)" and p: "\<not> overlaps sa D D eb"
    by (simp_all add: overlaps_def)
  from o p queryIndex_iff [of idx pid a b] q e f c d h g show ?thesis
    by blast
qed

text \<open>
  The index holds the stay of scenario A, 2025-10-10 to 2025-10-15 on property 1: a stay
  from the 12th to the 14th conflicts, one from the 15th to the 17th does not, and neither
  does the first on property 2. An event from day 1, 14:00, to day 5, 10:00: the last
  millisecond of day 4 is occupied, the midnight that starts day 5 (the check-out day) is
  free, and so is day 0.
\<close>

theorem slot_conflict_test_witness:
  "queryIndex [\<lparr> entryProperty = 1, entryReservation = 0, entryStart = mkDate 2025 10 10,
                  entryEnd = mkDate 2025 10 15 \<rparr>] 1 (mkDate 2025 10 12) (mkDate 2025 10 14) \<and>
   \<not> queryIndex [\<lparr> entryProperty = 1, entryReservation = 0, entryStart = mkDate 2025 10 10,
                    entryEnd = mkDate 2025 10 15 \<rparr>] 1 (mkDate 2025 10 15) (mkDate 2025 10 17) \<and>
   \<not> queryIndex [\<lparr> entryProperty = 1, entryReservation = 0, entryStart = mkDate 2025 10 10,
                    entryEnd = mkDate 2025 10 15 \<rparr>] 2 (mkDate 2025 10 12) (mkDate 2025 10 14) \<and>
   isBooked 0 [\<lparr>rangeStart = 86400000 + 50400000, rangeEnd = 432000000 + 36000000\<rparr>]
      \<lparr>rangeStart = 345600000 + 86399999, rangeEnd = 0\<rparr> \<and>
   \<not> isBooked 0 [\<lparr>rangeStart = 86400000 + 50400000, rangeEnd = 432000000 + 36000000\<rparr>]
      \<lparr>rangeStart = 432000000, rangeEnd = 0\<rparr> \<and>
   \<not> isBooked 0 [\<lparr>rangeStart = 86400000 + 50400000, rangeEnd = 432000000 + 36000000\<rparr>]
      \<lparr>rangeStart = 86399999, rangeEnd = 0\<rparr>"
proof -
  note t = slot_conflict_test
    [where tz = 0 and
       events = "[\<lparr>rangeStart = 86400000 + 50400000, rangeEnd = 432000000 + 36000000\<rparr>]" and
       idx = "[\<lparr> entryProperty = 1, entryReservation = 0, entryStart = mkDate 2025 10 10,
                 entryEnd = mkDate 2025 10 15 \<rparr>]"]
  note q = t [THEN conjunct2, THEN conjunct2, THEN conjunct2, THEN conjunct1]
  note c = t [THEN conjunct2, THEN conjunct2, THEN conjunct2, THEN conjunct2, THEN conjunct2,
              THEN conjunct2, THEN conjunct1]
  have q1: "queryIndex [\<lparr> entryProperty = 1, entryReservation = 0, entryStart = mkDate 2025 10 10,
                  entryEnd = mkDate 2025 10 15 \<rparr>] 1 (mkDate 2025 10 12) (mkDate 2025 10 14)"
    unfolding q by (simp add: mkDate_def dayNumber_def)
  have q2: "\<not> queryIndex [\<lparr> entryProperty = 1, entryReservation = 0, entryStart = mkDate 2025 10 10,
                    entryEnd = mkDate 2025 10 15 \<rparr>] 1 (mkDate 2025 10 15) (mkDate 2025 10 17)"
    unfolding q by (simp add: mkDate_def dayNumber_def)
  have q3: "\<not> queryIndex [\<lparr> entryProperty = 1, entryReservation = 0, entryStart = mkDate 2025 10 10,
                    entryEnd = mkDate 2025 10 15 \<rparr>] 2 (mkDate 2025 10 12) (mkDate 2025 10 14)"
    unfolding q by simp
  have b1: "isBooked 0 [\<lparr>rangeStart = 86400000 + 50400000, rangeEnd = 432000000 + 36000000\<rparr>]
      \<lparr>rangeStart = 345600000 + 86399999, rangeEnd = 0\<rparr>"
    unfolding c by (simp add: localDay_def msPerDay_def)
  have b2: "\<not> isBooked 0 [\<lparr>rangeStart = 86400000 + 50400000, rangeEnd = 432000000 + 36000000\<rparr>]
      \<lparr>rangeStart = 432000000, rangeEnd = 0\<rparr>"
    unfolding c by (simp add: localDay_def msPerDay_def)
  have b3: "\<not> isBooked 0 [\<lparr>rangeStart = 86400000 + 50400000, rangeEnd = 432000000 + 36000000\<rparr>]
      \<lparr>rangeStart = 86399999, rangeEnd = 0\<rparr>"
    unfolding c by (simp add: localDay_def msPerDay_def)
  from q1 q2 q3 b1 b2 b3 show ?thesis by blast
qed

subsection \<open>The derived user data\<close>

lemma findLink_no_match:
  assumes "\<forall>e \<in> set ms. \<exists>m. e = Some m \<and> \<not> strictEquals (linkUserId m) uid"
  shows "findLink uid ms = Inr None"
  using assms
proof (induction ms)
  case Nil
  show ?case by simp
next
  case (Cons e ms)
  then obtain m where "e = Some m" and "\<not> strictEquals (linkUserId m) uid"
    by auto
  with Cons show ?case by simp
qed

lemma findUserLink_no_match:
  assumes "\<forall>e \<in> set (memberList p). \<exists>m. e = Some m \<and> \<not> strictEquals (linkUserId m) (usuarioId u)"
  shows "findUserLink p u = Inr None"
proof (cases "usuarios p")
  case None
  then show ?thesis by (simp add: findUserLink_def)
next
  case (Some ms)
  then have "findLink (usuarioId u) ms = Inr None"
    using assms by (simp add: findLink_no_match memberList_def)
  with Some show ?thesis by (simp add: findUserLink_def)
qed

lemma currentUserData_None:
  "pr = None \<or> us = None \<Longrightarrow>
     currentUserData pr us = Inr \<lparr> isMaster = False, saldoAtual = 0, saldoFuturo = 0 \<rparr>"
  by (auto simp add: currentUserData_def split: option.splits)

lemma currentUserData_no_link:
  "findUserLink p u = Inr None \<Longrightarrow>
     currentUserData (Some p) (Some u) = Inr \<lparr> isMaster = False, saldoAtual = 0, saldoFuturo = 0 \<rparr>"
  by (simp add: currentUserData_def)

lemma currentUserData_zero_link:
  "usuarioId z \<noteq> JSNaN \<Longrightarrow>
   currentUserData
     (Some \<lparr> usuarios = Some [Some \<lparr> linkUsuario = Some z, permissao = Some ''proprietario_comum'',
                                     saldoDiariasAtual = Some 0, saldoDiariasFuturo = Some 0 \<rparr>] \<rparr>)
     (Some z) = Inr \<lparr> isMaster = False, saldoAtual = 0, saldoFuturo = 0 \<rparr>"
  by (simp add: currentUserData_def findUserLink_def linkUserId_def strictEquals_def)

text \<open>
  An entry that is \<open>null\<close> or \<open>undefined\<close>, reached before any entry of the user, makes the
  lookup raise.
\<close>

lemma findLink_null_entry:
  assumes "\<forall>e \<in> set ms. \<exists>m. e = Some m \<and> \<not> strictEquals (linkUserId m) uid"
  shows "findLink uid (ms @ None # rest) = Inl TypeError"
  using assms
proof (induction ms)
  case Nil
  show ?case by simp
next
  case (Cons e ms)
  then obtain m where "e = Some m" and "\<not> strictEquals (linkUserId m) uid"
    by auto
  with Cons show ?case by simp
qed

text \<open>
  Claim C9, as stated, fails on the code: on a member list whose only entry is \<open>null\<close>
  the user has no membership entry, and the memo raises a TypeError instead of yielding
  the zero data.
\<close>

theorem currentUserData_null_entry_counterexample:
  "\<not> (\<exists>m. Some m \<in> set (memberList \<lparr> usuarios = Some [None] \<rparr>) \<and>
           strictEquals (linkUserId m) (JSNumber 1)) \<and>
   currentUserData (Some \<lparr> usuarios = Some [None] \<rparr>) (Some \<lparr> usuarioId = JSNumber 1 \<rparr>)
     = Inl TypeError \<and>
   currentUserData (Some \<lparr> usuarios = Some [None] \<rparr>) (Some \<lparr> usuarioId = JSNumber 1 \<rparr>)
     \<noteq> Inr \<lparr> isMaster = False, saldoAtual = 0, saldoFuturo = 0 \<rparr>"
  by (simp add: currentUserData_def findUserLink_def memberList_def)

text \<open>
  Claim C9, amended. When the property is null, the user is null, or every entry of the
  property's member list is an object and none carries an id that is \<open>===\<close> the user's,
  the derived data is \<open>isMaster = false\<close> with both balances 0 and no error is raised; that
  is also what a common member with two zero balances gets. (The member list may be
  absent; a \<open>null\<close> or \<open>undefined\<close> entry that the lookup reaches raises a TypeError.)
\<close>

theorem currentUserData_no_membership:
  assumes "pr = None \<or> us = None \<or>
           (\<exists>p u. pr = Some p \<and> us = Some u \<and>
                  (\<forall>e \<in> set (memberList p).
                      \<exists>m. e = Some m \<and> \<not> strictEquals (linkUserId m) (usuarioId u)))"
  shows "currentUserData pr us = Inr \<lparr> isMaster = False, saldoAtual = 0, saldoFuturo = 0 \<rparr> \<and>
         (usuarioId z \<noteq> JSNaN \<longrightarrow>
          currentUserData pr us =
            currentUserData
              (Some \<lparr> usuarios = Some [Some \<lparr> linkUsuario = Some z,
                                              permissao = Some ''proprietario_comum'',
                                              saldoDiariasAtual = Some 0,
                                              saldoDiariasFuturo = Some 0 \<rparr>] \<rparr>)
              (Some z))"
proof -
  have "currentUserData pr us = Inr \<lparr> isMaster = False, saldoAtual = 0, saldoFuturo = 0 \<rparr>"
    using assms currentUserData_None [of pr us] currentUserData_no_link findUserLink_no_match
    by blast
  then show ?thesis
    by (simp add: currentUserData_zero_link)
qed

text \<open>
  User 2 on a property whose only member is user 1, a master with balances 10 and 20; and
  a user whose id is \<open>undefined\<close> on a property whose only member's user has the id
  \<open>null\<close>: \<open>===\<close> tells the two apart, so that user is no member either.
\<close>

theorem currentUserData_no_membership_witness:
  "currentUserData
     (Some \<lparr> usuarios = Some [Some \<lparr> linkUsuario = Some \<lparr>usuarioId = JSNumber 1\<rparr>,
                                     permissao = Some ''proprietario_master'',
                                     saldoDiariasAtual = Some 10, saldoDiariasFuturo = Some 20 \<rparr>] \<rparr>)
     (Some \<lparr>usuarioId = JSNumber 2\<rparr>)
   = Inr \<lparr> isMaster = False, saldoAtual = 0, saldoFuturo = 0 \<rparr> \<and>
   currentUserData
     (Some \<lparr> usuarios = Some [Some \<lparr> linkUsuario = Some \<lparr>usuarioId = JSNull\<rparr>,
                                     permissao = Some ''proprietario_master'',
                                     saldoDiariasAtual = Some 10, saldoDiariasFuturo = Some 20 \<rparr>] \<rparr>)
     (Some \<lparr>usuarioId = JSUndefined\<rparr>)
   = Inr \<lparr> isMaster = False, saldoAtual = 0, saldoFuturo = 0 \<rparr>"
  using currentUserData_no_membership
    [of "Some \<lparr> usuarios = Some [Some \<lparr> linkUsuario = Some \<lparr>usuarioId = JSNumber 1\<rparr>,
                               permissao = Some ''proprietario_master'',
                               saldoDiariasAtual = Some 10, saldoDiariasFuturo = Some 20 \<rparr>] \<rparr>"
        "Some \<lparr>usuarioId = JSNumber 2\<rparr>" "\<lparr>usuarioId = JSNumber 2\<rparr>"]
    currentUserData_no_membership
    [of "Some \<lparr> usuarios = Some [Some \<lparr> linkUsuario = Some \<lparr>usuarioId = JSNull\<rparr>,
                               permissao = Some ''proprietario_master'',
                               saldoDiariasAtual = Some 10, saldoDiariasFuturo = Some 20 \<rparr>] \<rparr>"
        "Some \<lparr>usuarioId = JSUndefined\<rparr>" "\<lparr>usuarioId = JSNumber 2\<rparr>"]
  by (simp add: memberList_def linkUserId_def strictEquals_def)

subsection \<open>The balance card\<close>

text \<open>
  Claim C10. The card shows the floor of each of the two balances it is given: a
  non-negative integer balance is shown as it is, and of any other balance the fractional
  part is dropped.
\<close>

theorem UserBalanceCard_floor:
  "UserBalanceCard y a f = [(y, \<lfloor>a\<rfloor>), (y + 1, \<lfloor>f\<rfloor>)] \<and>
   UserBalanceCard y (real n) (real m) = [(y, int n), (y + 1, int m)] \<and>
   map (\<lambda>row. real_of_int (snd row)) (UserBalanceCard y a f) = [a - frac a, f - frac f]"
  by (simp add: UserBalanceCard_def frac_def)

text \<open>The balances of the page's test, 10 and 20, the second with half a night added.\<close>

theorem UserBalanceCard_floor_witness:
  "UserBalanceCard 2025 10 (41 / 2) = [(2025, 10), (2026, 20)]"
  using UserBalanceCard_floor [of 2025 10 "41 / 2" 0 0] by simp

section \<open>Properties of the engine\<close>

subsection \<open>Balance Ledger\<close>

text \<open>
  Claim C3. \<open>availableNights\<close> answers the current-year balance for this year, the
  next-year balance for next year, and fails with YearOutOfRange for every other year.
  The balance card of the calendar page shows a number for exactly the years it answers
  for, and that number.
\<close>

theorem availableNights_buckets:
  "availableNights thisYear m thisYear = Inr (balanceCurrentYear m) \<and>
   availableNights thisYear m (thisYear + 1) = Inr (balanceNextYear m) \<and>
   (y \<noteq> thisYear \<and> y \<noteq> thisYear + 1 \<longrightarrow> availableNights thisYear m y = Inl YearOutOfRange) \<and>
   map_of (UserBalanceCard thisYear (real_of_int (balanceCurrentYear m))
             (real_of_int (balanceNextYear m))) y =
     (case availableNights thisYear m y of Inl e \<Rightarrow> None | Inr a \<Rightarrow> Some a)"
  by (simp add: availableNights_def UserBalanceCard_def)

text \<open>The membership of the scenarios in 2025: 10 nights for 2025, 20 for 2026, none for 2024 or 2027.\<close>

theorem availableNights_buckets_witness:
  "availableNights 2025 scenarioMembership 2025 = Inr 10 \<and>
   availableNights 2025 scenarioMembership 2026 = Inr 20 \<and>
   availableNights 2025 scenarioMembership 2027 = Inl YearOutOfRange \<and>
   availableNights 2025 scenarioMembership 2024 = Inl YearOutOfRange"
  using availableNights_buckets [of 2025 scenarioMembership 2027]
    availableNights_buckets [of 2025 scenarioMembership 2024]
  by (simp add: scenarioMembership_def)

text \<open>
  In this model of the ledger, a debit that succeeds followed by the credit of the same
  nights to the same year gives back the membership as it was.
\<close>

lemma debit_credit_round_trip:
  assumes "debit thisYear m y nights = Inr m'"
  shows "credit thisYear m' y nights = m \<and>
         availableNights thisYear (credit thisYear m' y nights) y = availableNights thisYear m y"
proof -
  have "credit thisYear m' y nights = m"
    using assms
    by (auto simp add: debit_def credit_def availableNights_def split: if_splits)
  then show ?thesis by simp
qed

text \<open>Scenarios A and B undone: 5 nights of 2025 and 8 nights of 2026.\<close>

lemma debit_credit_round_trip_scenario:
  "credit 2025 (scenarioMembership\<lparr>balanceCurrentYear := 5\<rparr>) 2025 5 = scenarioMembership \<and>
   credit 2025 (scenarioMembership\<lparr>balanceNextYear := 12\<rparr>) 2026 8 = scenarioMembership"
proof -
  have a: "debit 2025 scenarioMembership 2025 5 = Inr (scenarioMembership\<lparr>balanceCurrentYear := 5\<rparr>)"
    by (simp add: debit_def availableNights_def scenarioMembership_def)
  have b: "debit 2025 scenarioMembership 2026 8 = Inr (scenarioMembership\<lparr>balanceNextYear := 12\<rparr>)"
    by (simp add: debit_def availableNights_def scenarioMembership_def)
  show ?thesis
    using debit_credit_round_trip [OF a] debit_credit_round_trip [OF b] by simp
qed

subsection \<open>Booking\<close>

lemma debit_after_check:
  assumes "availableNights thisYear m y = Inr a" and "\<not> a < nights"
  shows "debit thisYear m y nights =
           Inr (if y = thisYear then m\<lparr>balanceCurrentYear := balanceCurrentYear m - nights\<rparr>
                else m\<lparr>balanceNextYear := balanceNextYear m - nights\<rparr>)"
  using assms by (auto simp add: debit_def availableNights_def split: if_splits)

lemma requestReservation_failure:
  "requestReservation en st pid uid start finish g = (Inl e, st') \<Longrightarrow> st' = st"
  by (auto simp add: requestReservation_def Let_def commit_def debit_after_check
      split: if_splits sum.splits)

lemma requestReservation_success:
  assumes "requestReservation en st pid uid start finish g = (Inr res, st')"
  shows "res = \<lparr> propertyId = pid, requesterId = uid, startDate = start, endDate = finish,
                 status = CONFIRMED, debitYear = year start,
                 nightsCharged = dayNumber finish - dayNumber start \<rparr>"
    and "year start = year (today en) \<or> year start = year (today en) + 1"
    and "debit (year (today en)) (ledger st (pid, uid)) (year start) (dayNumber finish - dayNumber start)
           = Inr (if year start = year (today en)
                  then (ledger st (pid, uid))\<lparr>balanceCurrentYear :=
                          balanceCurrentYear (ledger st (pid, uid)) - (dayNumber finish - dayNumber start)\<rparr>
                  else (ledger st (pid, uid))\<lparr>balanceNextYear :=
                          balanceNextYear (ledger st (pid, uid)) - (dayNumber finish - dayNumber start)\<rparr>)"
    and "st' = st\<lparr> conflictIndex := insertIndex (conflictIndex st) pid (nextId st) start finish,
                   ledger := (ledger st)((pid, uid) :=
                      (if year start = year (today en)
                       then (ledger st (pid, uid))\<lparr>balanceCurrentYear :=
                          balanceCurrentYear (ledger st (pid, uid)) - (dayNumber finish - dayNumber start)\<rparr>
                       else (ledger st (pid, uid))\<lparr>balanceNextYear :=
                          balanceNextYear (ledger st (pid, uid)) - (dayNumber finish - dayNumber start)\<rparr>)),
                   reservations := (reservations st)(nextId st := Some res),
                   nextId := Suc (nextId st) \<rparr>"
  using assms
  by (auto simp add: requestReservation_def Let_def commit_def debit_after_check
      split: if_splits sum.splits)

text \<open>
  Claim C2. A request that succeeds is charged to the bucket of the year of its start date
  alone: the current-year bucket when the stay starts this year, the next-year bucket when
  it starts next year, for all of its nights, whatever the year of its end date; the other
  bucket and every other membership are left as they were.
\<close>

theorem charge_by_start_year:
  assumes "fst (requestReservation en st pid uid start finish g) = Inr res"
  shows "debitYear res = year start \<and>
         nightsCharged res = dayNumber finish - dayNumber start \<and>
         (year start = year (today en) \<or> year start = year (today en) + 1) \<and>
         ledger (snd (requestReservation en st pid uid start finish g)) =
           (ledger st)((pid, uid) :=
              (if year start = year (today en)
               then (ledger st (pid, uid))\<lparr>balanceCurrentYear :=
                       balanceCurrentYear (ledger st (pid, uid)) - nightsCharged res\<rparr>
               else (ledger st (pid, uid))\<lparr>balanceNextYear :=
                       balanceNextYear (ledger st (pid, uid)) - nightsCharged res\<rparr>))"
proof -
  obtain st' where r: "requestReservation en st pid uid start finish g = (Inr res, st')"
    using assms by (cases "requestReservation en st pid uid start finish g") simp
  show ?thesis
    using requestReservation_success [OF r] by (simp add: r)
qed

text \<open>
  A stay from 2025-12-29 to 2026-01-05 takes its 7 nights from the 2025 balance only; the
  stay of the page's test, 2026-02-10 to 2026-02-18, takes its 8 nights from the 2026
  balance.
\<close>

theorem charge_by_start_year_witness:
  "ledger (snd (requestReservation scenarioEnv scenarioState 1 1
                  (mkDate 2025 12 29) (mkDate 2026 1 5) 2)) (1, 1)
     = scenarioMembership\<lparr>balanceCurrentYear := 3\<rparr> \<and>
   ledger (snd (requestReservation scenarioEnv scenarioState 1 1
                  (mkDate 2026 2 10) (mkDate 2026 2 18) 3)) (1, 1)
     = scenarioMembership\<lparr>balanceNextYear := 12\<rparr>"
proof -
  have a: "fst (requestReservation scenarioEnv scenarioState 1 1
                  (mkDate 2025 12 29) (mkDate 2026 1 5) 2)
             = Inr \<lparr> propertyId = 1, requesterId = 1, startDate = mkDate 2025 12 29,
                     endDate = mkDate 2026 1 5, status = CONFIRMED, debitYear = 2025,
                     nightsCharged = 7 \<rparr>"
    by (simp add: requestReservation_def Let_def scenarioEnv_def scenarioState_def
        initial_def mkDate_def dayNumber_def hasActivePenalty_def queryIndex_def availableNights_def
        scenarioMembership_def commit_def debit_def insertIndex_def)
  have b: "fst (requestReservation scenarioEnv scenarioState 1 1
                  (mkDate 2026 2 10) (mkDate 2026 2 18) 3)
             = Inr \<lparr> propertyId = 1, requesterId = 1, startDate = mkDate 2026 2 10,
                     endDate = mkDate 2026 2 18, status = CONFIRMED, debitYear = 2026,
                     nightsCharged = 8 \<rparr>"
    by (simp add: requestReservation_def Let_def scenarioEnv_def scenarioState_def
        initial_def mkDate_def dayNumber_def hasActivePenalty_def queryIndex_def availableNights_def
        scenarioMembership_def commit_def debit_def insertIndex_def)
  show ?thesis
    using charge_by_start_year [OF a] charge_by_start_year [OF b]
    by (simp add: scenarioEnv_def scenarioState_def initial_def mkDate_def scenarioMembership_def)
qed

text \<open>
  In this model a request either fails, and then leaves the whole state (Conflict Index
  and ledger included) as it was, or succeeds, and then the interval is in the index, the
  ledger is debited and the CONFIRMED reservation is stored, all three. The model is
  sequential: it says what one call does to the state, not how calls interleave.
\<close>

lemma requestReservation_all_or_nothing:
  "(\<forall>e. fst (requestReservation en st pid uid start finish g) = Inl e \<longrightarrow>
        snd (requestReservation en st pid uid start finish g) = st) \<and>
   (\<forall>res. fst (requestReservation en st pid uid start finish g) = Inr res \<longrightarrow>
        (\<exists>m. debit (year (today en)) (ledger st (pid, uid)) (year start) (nightsCharged res) = Inr m \<and>
             snd (requestReservation en st pid uid start finish g) =
               st\<lparr> conflictIndex := insertIndex (conflictIndex st) pid (nextId st) start finish,
                   ledger := (ledger st)((pid, uid) := m),
                   reservations := (reservations st)(nextId st := Some res),
                   nextId := Suc (nextId st) \<rparr>) \<and>
        status res = CONFIRMED \<and> debitYear res = year start \<and>
        nightsCharged res = dayNumber finish - dayNumber start)"
proof (intro conjI allI impI)
  fix e
  assume "fst (requestReservation en st pid uid start finish g) = Inl e"
  then have "requestReservation en st pid uid start finish g =
               (Inl e, snd (requestReservation en st pid uid start finish g))"
    by (simp add: prod_eq_iff)
  then show "snd (requestReservation en st pid uid start finish g) = st"
    by (rule requestReservation_failure)
next
  fix res
  assume "fst (requestReservation en st pid uid start finish g) = Inr res"
  then have r: "requestReservation en st pid uid start finish g =
               (Inr res, snd (requestReservation en st pid uid start finish g))"
    by (simp add: prod_eq_iff)
  note s = requestReservation_success [OF r]
  show "status res = CONFIRMED" "debitYear res = year start"
       "nightsCharged res = dayNumber finish - dayNumber start"
    using s(1) by simp_all
  have n: "nightsCharged res = dayNumber finish - dayNumber start" using s(1) by simp
  show "\<exists>m. debit (year (today en)) (ledger st (pid, uid)) (year start) (nightsCharged res) = Inr m \<and>
             snd (requestReservation en st pid uid start finish g) =
               st\<lparr> conflictIndex := insertIndex (conflictIndex st) pid (nextId st) start finish,
                   ledger := (ledger st)((pid, uid) := m),
                   reservations := (reservations st)(nextId st := Some res),
                   nextId := Suc (nextId st) \<rparr>"
    using s(3) s(4) unfolding n by blast
qed

text \<open>Scenario D: 11 nights against a 2025 balance of 10.\<close>

lemma requestReservation_all_or_nothing_scenario:
  "requestReservation scenarioEnv scenarioState 1 1 (mkDate 2025 10 10) (mkDate 2025 10 21) 2
     = (Inl InsufficientBalance, scenarioState)"
proof -
  have a: "fst (requestReservation scenarioEnv scenarioState 1 1
                  (mkDate 2025 10 10) (mkDate 2025 10 21) 2) = Inl InsufficientBalance"
    by (simp add: requestReservation_def Let_def scenarioEnv_def scenarioState_def
        initial_def mkDate_def dayNumber_def hasActivePenalty_def queryIndex_def availableNights_def
        scenarioMembership_def)
  have "snd (requestReservation scenarioEnv scenarioState 1 1
                  (mkDate 2025 10 10) (mkDate 2025 10 21) 2) = scenarioState"
    using requestReservation_all_or_nothing
      [of scenarioEnv scenarioState 1 1 "mkDate 2025 10 10" "mkDate 2025 10 21" 2] a
    by blast
  then show ?thesis using a by (simp add: prod_eq_iff)
qed

subsection \<open>The scenarios, evaluated\<close>

lemma scenarioBooked_eq:
  "scenarioBooked =
     \<lparr> conflictIndex = [\<lparr> entryProperty = 1, entryReservation = 0,
                           entryStart = mkDate 2025 10 10, entryEnd = mkDate 2025 10 15 \<rparr>],
       ledger = (\<lambda>_. scenarioMembership)((1, 1) := scenarioMembership\<lparr>balanceCurrentYear := 5\<rparr>),
       reservations = (\<lambda>_. None)(0 := Some \<lparr> propertyId = 1, requesterId = 1,
           startDate = mkDate 2025 10 10, endDate = mkDate 2025 10 15, status = CONFIRMED,
           debitYear = 2025, nightsCharged = 5 \<rparr>),
       penalties = [], checklists = [], possession = (\<lambda>_. AWAITING_CHECKIN), nextId = Suc 0 \<rparr>"
  by (simp add: scenarioBooked_def requestReservation_def Let_def scenarioEnv_def scenarioState_def
      initial_def mkDate_def dayNumber_def hasActivePenalty_def queryIndex_def availableNights_def
      scenarioMembership_def commit_def debit_def insertIndex_def)

lemma scenarioCheckedIn_checklists:
  "checklists scenarioCheckedIn =
     [\<lparr> checklistReservation = 0, phase = CHECKIN, entries = [(1, OK), (2, OK)],
        freeText = [], submittedBy = 1, timestamp = mkDate 2025 1 15 \<rparr>] \<and>
   possession scenarioCheckedIn 0 = CHECKED_IN \<and>
   reservations scenarioCheckedIn 0 = reservations scenarioBooked 0"
  by (simp add: scenarioCheckedIn_def scenarioBooked_eq submitCheckin_def canCheckin_def
      hasRecord_def itemsKnown_def noteGiven_def scenarioEnv_def mkDate_def)

lemma scenarioCheckedOut_checklists:
  "map phase (checklists scenarioCheckedOut) = [CHECKIN, CHECKOUT] \<and>
   map checklistReservation (checklists scenarioCheckedOut) = [0, 0]"
  using scenarioCheckedIn_checklists
  by (simp add: scenarioCheckedOut_def scenarioBooked_eq submitCheckout_def canCheckout_def
      hasRecord_def itemsKnown_def noteGiven_def scenarioEnv_def mkDate_def)

subsection \<open>Cancelling\<close>

lemma cancel_unknown:
  "reservations st rid = None \<Longrightarrow>
     cancelReservation en st rid byUserId = (Inl NotCancellable, st)"
  by (simp add: cancelReservation_def)

lemma cancel_refused:
  "reservations st rid = Some r \<Longrightarrow> \<not> cancellable st r byUserId \<Longrightarrow>
     cancelReservation en st rid byUserId = (Inl NotCancellable, st)"
  by (simp add: cancelReservation_def)

lemma cancel_done:
  "reservations st rid = Some r \<Longrightarrow> cancellable st r byUserId \<Longrightarrow>
     cancelReservation en st rid byUserId =
       (Inr (),
        st\<lparr> conflictIndex := removeIndex (conflictIndex st) (propertyId r) rid,
            ledger := (ledger st)
              ((propertyId r, requesterId r) :=
                 credit (year (today en)) (ledger st (propertyId r, requesterId r))
                   (debitYear r) (nightsCharged r)),
            reservations := (reservations st)(rid := Some (r\<lparr>status := CANCELLED\<rparr>)) \<rparr>)"
  by (simp add: cancelReservation_def)

lemma cancel_succeeds_iff:
  "(fst (cancelReservation en st rid byUserId) = Inr ()) =
     (\<exists>r. reservations st rid = Some r \<and> cancellable st r byUserId)"
proof (cases "reservations st rid")
  case None
  then show ?thesis by (simp add: cancel_unknown)
next
  case (Some r)
  then show ?thesis
    by (cases "cancellable st r byUserId") (simp_all add: cancel_refused cancel_done)
qed

lemma cancel_fails:
  "fst (cancelReservation en st rid byUserId) \<noteq> Inr () \<Longrightarrow>
     cancelReservation en st rid byUserId = (Inl NotCancellable, st)"
proof (cases "reservations st rid")
  case None
  then show ?thesis by (simp add: cancel_unknown)
next
  case (Some r)
  assume f: "fst (cancelReservation en st rid byUserId) \<noteq> Inr ()"
  have "\<not> cancellable st r byUserId"
    using f Some cancel_succeeds_iff [of en st rid byUserId] by simp
  with Some show ?thesis by (rule cancel_refused)
qed

lemma cancel_again:
  assumes "fst (cancelReservation en st rid byUserId) = Inr ()"
  shows "cancelReservation en' (snd (cancelReservation en st rid byUserId)) rid byUserId' =
           (Inl NotCancellable, snd (cancelReservation en st rid byUserId))"
proof -
  obtain r where r: "reservations st rid = Some r" and c: "cancellable st r byUserId"
    using assms cancel_succeeds_iff [of en st rid byUserId] by blast
  have s: "reservations (snd (cancelReservation en st rid byUserId)) rid =
             Some (r\<lparr>status := CANCELLED\<rparr>)"
    by (simp add: cancel_done [OF r c])
  have n: "\<not> cancellable (snd (cancelReservation en st rid byUserId)) (r\<lparr>status := CANCELLED\<rparr>) byUserId'"
    by (simp add: cancellable_def)
  from s n show ?thesis by (rule cancel_refused)
qed

text \<open>
  In this model a cancellation succeeds exactly when the reservation is PENDING or
  CONFIRMED and the caller is its requester or a MASTER member of the property; it then
  removes the interval from the index, credits the charged nights back and sets the status
  CANCELLED. In every other case it fails with NotCancellable and changes nothing; so does
  a second cancellation after a successful one, which does not credit the ledger again.
\<close>

lemma cancelReservation_correct:
  "(fst (cancelReservation en st rid byUserId) = Inr ()) =
     (\<exists>r. reservations st rid = Some r \<and>
          (status r = PENDING \<or> status r = CONFIRMED) \<and>
          (byUserId = requesterId r \<or>
           permissionLevel (ledger st (propertyId r, byUserId)) = MASTER)) \<and>
   (\<forall>r. fst (cancelReservation en st rid byUserId) = Inr () \<and> reservations st rid = Some r \<longrightarrow>
        snd (cancelReservation en st rid byUserId) =
          st\<lparr> conflictIndex := removeIndex (conflictIndex st) (propertyId r) rid,
              ledger := (ledger st)
                ((propertyId r, requesterId r) :=
                   credit (year (today en)) (ledger st (propertyId r, requesterId r))
                     (debitYear r) (nightsCharged r)),
              reservations := (reservations st)(rid := Some (r\<lparr>status := CANCELLED\<rparr>)) \<rparr>) \<and>
   (fst (cancelReservation en st rid byUserId) \<noteq> Inr () \<longrightarrow>
        cancelReservation en st rid byUserId = (Inl NotCancellable, st)) \<and>
   (\<forall>r. reservations st rid = Some r \<and> status r = CANCELLED \<longrightarrow>
        cancelReservation en st rid byUserId = (Inl NotCancellable, st)) \<and>
   (fst (cancelReservation en st rid byUserId) = Inr () \<longrightarrow>
        cancelReservation en' (snd (cancelReservation en st rid byUserId)) rid byUserId' =
          (Inl NotCancellable, snd (cancelReservation en st rid byUserId)))"
proof (intro conjI allI impI)
  show "(fst (cancelReservation en st rid byUserId) = Inr ()) =
     (\<exists>r. reservations st rid = Some r \<and>
          (status r = PENDING \<or> status r = CONFIRMED) \<and>
          (byUserId = requesterId r \<or>
           permissionLevel (ledger st (propertyId r, byUserId)) = MASTER))"
    unfolding cancel_succeeds_iff cancellable_def by (rule refl)
next
  fix r
  assume a: "fst (cancelReservation en st rid byUserId) = Inr () \<and> reservations st rid = Some r"
  then have "cancellable st r byUserId"
    using cancel_succeeds_iff [of en st rid byUserId] by auto
  with a show "snd (cancelReservation en st rid byUserId) =
          st\<lparr> conflictIndex := removeIndex (conflictIndex st) (propertyId r) rid,
              ledger := (ledger st)
                ((propertyId r, requesterId r) :=
                   credit (year (today en)) (ledger st (propertyId r, requesterId r))
                     (debitYear r) (nightsCharged r)),
              reservations := (reservations st)(rid := Some (r\<lparr>status := CANCELLED\<rparr>)) \<rparr>"
    by (simp add: cancel_done)
next
  assume "fst (cancelReservation en st rid byUserId) \<noteq> Inr ()"
  then show "cancelReservation en st rid byUserId = (Inl NotCancellable, st)"
    by (rule cancel_fails)
next
  fix r
  assume a: "reservations st rid = Some r \<and> status r = CANCELLED"
  then have "\<not> cancellable st r byUserId" by (simp add: cancellable_def)
  with a show "cancelReservation en st rid byUserId = (Inl NotCancellable, st)"
    by (simp add: cancel_refused)
next
  assume "fst (cancelReservation en st rid byUserId) = Inr ()"
  then show "cancelReservation en' (snd (cancelReservation en st rid byUserId)) rid byUserId' =
          (Inl NotCancellable, snd (cancelReservation en st rid byUserId))"
    by (rule cancel_again)
qed

text \<open>
  The reservation of scenario A cancelled by its requester: the balance is 10 again and the
  index empty; cancelling once more, or by user 2 (a common member), is refused.
\<close>

lemma cancelReservation_correct_scenario:
  "fst (cancelReservation scenarioEnv scenarioBooked 0 1) = Inr () \<and>
   ledger (snd (cancelReservation scenarioEnv scenarioBooked 0 1)) (1, 1) = scenarioMembership \<and>
   conflictIndex (snd (cancelReservation scenarioEnv scenarioBooked 0 1)) = [] \<and>
   cancelReservation scenarioEnv (snd (cancelReservation scenarioEnv scenarioBooked 0 1)) 0 1 =
     (Inl NotCancellable, snd (cancelReservation scenarioEnv scenarioBooked 0 1)) \<and>
   cancelReservation scenarioEnv scenarioBooked 0 2 = (Inl NotCancellable, scenarioBooked)"
proof -
  note t = cancelReservation_correct [of scenarioEnv scenarioBooked 0 1 scenarioEnv 1]
  note u = cancelReservation_correct [of scenarioEnv scenarioBooked 0 2 scenarioEnv 2]
  have r: "reservations scenarioBooked 0 =
             Some \<lparr> propertyId = 1, requesterId = 1, startDate = mkDate 2025 10 10,
                    endDate = mkDate 2025 10 15, status = CONFIRMED, debitYear = 2025,
                    nightsCharged = 5 \<rparr>"
    by (simp add: scenarioBooked_eq)
  have ok: "fst (cancelReservation scenarioEnv scenarioBooked 0 1) = Inr ()"
    using t [THEN conjunct1] r by simp
  have no: "fst (cancelReservation scenarioEnv scenarioBooked 0 2) \<noteq> Inr ()"
    using u [THEN conjunct1] r by (simp add: scenarioBooked_eq scenarioMembership_def)
  have st: "snd (cancelReservation scenarioEnv scenarioBooked 0 1) =
          scenarioBooked\<lparr> conflictIndex := removeIndex (conflictIndex scenarioBooked) 1 0,
              ledger := (ledger scenarioBooked)
                ((1, 1) := credit 2025 (ledger scenarioBooked (1, 1)) 2025 5),
              reservations := (reservations scenarioBooked)(0 := Some
                 (\<lparr> propertyId = 1, requesterId = 1, startDate = mkDate 2025 10 10,
                    endDate = mkDate 2025 10 15, status = CANCELLED, debitYear = 2025,
                    nightsCharged = 5 \<rparr>)) \<rparr>"
    using t [THEN conjunct2, THEN conjunct1, rule_format, OF conjI [OF ok r]]
    by (simp add: scenarioEnv_def)
  have l: "ledger (snd (cancelReservation scenarioEnv scenarioBooked 0 1)) (1, 1) = scenarioMembership"
    unfolding st by (simp add: scenarioBooked_eq credit_def scenarioMembership_def)
  have c: "conflictIndex (snd (cancelReservation scenarioEnv scenarioBooked 0 1)) = []"
    unfolding st by (simp add: scenarioBooked_eq removeIndex_def)
  have again: "cancelReservation scenarioEnv (snd (cancelReservation scenarioEnv scenarioBooked 0 1)) 0 1 =
     (Inl NotCancellable, snd (cancelReservation scenarioEnv scenarioBooked 0 1))"
    using t [THEN conjunct2, THEN conjunct2, THEN conjunct2, THEN conjunct2] ok by blast
  have other: "cancelReservation scenarioEnv scenarioBooked 0 2 = (Inl NotCancellable, scenarioBooked)"
    using u [THEN conjunct2, THEN conjunct2, THEN conjunct1] no by blast
  show ?thesis using ok l c again other by blast
qed

subsection \<open>Check-in before check-out\<close>

lemma checkoutsPreceded_Nil: "checkoutsPreceded []"
  by (simp add: checkoutsPreceded_def)

lemma nth_snoc_old: "j < length cks \<Longrightarrow> (cks @ [c]) ! j = cks ! j"
  by (simp add: nth_append)

lemma hasRecord_nth:
  "hasRecord cks rid ph = (\<exists>j < length cks. checklistReservation (cks ! j) = rid \<and> phase (cks ! j) = ph)"
  unfolding hasRecord_def list_ex_iff by (metis in_set_conv_nth)

lemma checkoutsPreceded_old:
  assumes "checkoutsPreceded cks" and "i < length cks" and "phase ((cks @ [c]) ! i) = CHECKOUT"
  shows "\<exists>j<i. phase ((cks @ [c]) ! j) = CHECKIN \<and>
               checklistReservation ((cks @ [c]) ! j) = checklistReservation ((cks @ [c]) ! i)"
proof -
  have "phase (cks ! i) = CHECKOUT"
    using assms(2,3) by (simp only: nth_snoc_old)
  then obtain j where j: "j < i" "phase (cks ! j) = CHECKIN"
      "checklistReservation (cks ! j) = checklistReservation (cks ! i)"
    using assms(1,2) unfolding checkoutsPreceded_def by blast
  have jl: "j < length cks" using j(1) assms(2) by simp
  have "phase ((cks @ [c]) ! j) = CHECKIN \<and>
        checklistReservation ((cks @ [c]) ! j) = checklistReservation ((cks @ [c]) ! i)"
    using j(2,3) by (simp only: nth_snoc_old [OF jl] nth_snoc_old [OF assms(2)])
  then show ?thesis using j(1) by blast
qed

lemma checkoutsPreceded_checkin:
  assumes "checkoutsPreceded cks" and "phase c = CHECKIN"
  shows "checkoutsPreceded (cks @ [c])"
  unfolding checkoutsPreceded_def
proof (intro allI impI)
  fix i
  assume i: "i < length (cks @ [c])" and out: "phase ((cks @ [c]) ! i) = CHECKOUT"
  have "i \<noteq> length cks"
    using out assms(2) by auto
  then have "i < length cks" using i by simp
  then show "\<exists>j<i. phase ((cks @ [c]) ! j) = CHECKIN \<and>
                checklistReservation ((cks @ [c]) ! j) = checklistReservation ((cks @ [c]) ! i)"
    by (rule checkoutsPreceded_old [OF assms(1) _ out])
qed

lemma checkoutsPreceded_checkout:
  assumes "checkoutsPreceded cks" and "hasRecord cks (checklistReservation c) CHECKIN"
  shows "checkoutsPreceded (cks @ [c])"
  unfolding checkoutsPreceded_def
proof (intro allI impI)
  fix i
  assume i: "i < length (cks @ [c])" and out: "phase ((cks @ [c]) ! i) = CHECKOUT"
  show "\<exists>j<i. phase ((cks @ [c]) ! j) = CHECKIN \<and>
                checklistReservation ((cks @ [c]) ! j) = checklistReservation ((cks @ [c]) ! i)"
  proof (cases "i < length cks")
    case True
    then show ?thesis by (rule checkoutsPreceded_old [OF assms(1) _ out])
  next
    case False
    then have eq: "i = length cks" using i by simp
    obtain j where j: "j < length cks" "checklistReservation (cks ! j) = checklistReservation c"
        "phase (cks ! j) = CHECKIN"
      using assms(2) unfolding hasRecord_nth by blast
    have "phase ((cks @ [c]) ! j) = CHECKIN \<and>
          checklistReservation ((cks @ [c]) ! j) = checklistReservation ((cks @ [c]) ! i)"
      using j(2,3) by (simp add: nth_snoc_old [OF j(1)] eq)
    then show ?thesis using j(1) eq by blast
  qed
qed

lemma hasRecord_append:
  "hasRecord (cks @ [c]) rid ph = (hasRecord cks rid ph \<or> (checklistReservation c = rid \<and> phase c = ph))"
  by (auto simp add: hasRecord_def list_ex_iff)

lemma requestReservation_checklists:
  "checklists (snd (requestReservation en st pid uid start finish g)) = checklists st \<and>
   possession (snd (requestReservation en st pid uid start finish g)) = possession st"
  by (simp add: requestReservation_def Let_def commit_def split: sum.splits)

lemma cancelReservation_checklists:
  "checklists (snd (cancelReservation en st rid byUserId)) = checklists st \<and>
   possession (snd (cancelReservation en st rid byUserId)) = possession st"
  by (simp add: cancelReservation_def split: option.splits)

lemma submitCheckin_inv:
  "possessionInv st \<Longrightarrow> possessionInv (submitCheckin en st rid caller items txt)"
  by (auto simp add: possessionInv_def submitCheckin_def checkoutsPreceded_checkin hasRecord_append
      split: option.splits)

lemma submitCheckout_inv:
  "possessionInv st \<Longrightarrow> possessionInv (submitCheckout en st rid caller items txt)"
  by (auto simp add: possessionInv_def submitCheckout_def canCheckout_def checkoutsPreceded_checkout
      hasRecord_append split: option.splits)

lemma reachable_possessionInv: "reachable st \<Longrightarrow> possessionInv st"
proof (induction rule: reachable.induct)
  case (init l ps)
  show ?case by (simp add: possessionInv_def initial_def checkoutsPreceded_Nil)
next
  case (request st en pid uid start finish g)
  then show ?case by (simp add: possessionInv_def requestReservation_checklists)
next
  case (cancel st en rid byUserId)
  then show ?case by (simp add: possessionInv_def cancelReservation_checklists)
next
  case (checkin st en rid caller items note')
  from checkin.IH show ?case by (rule submitCheckin_inv)
next
  case (checkout st en rid caller items note')
  from checkout.IH show ?case by (rule submitCheckout_inv)
qed

lemma submitCheckout_refused:
  "\<not> canCheckout st rid \<Longrightarrow> submitCheckout en st rid caller items txt = st"
  by (simp add: submitCheckout_def split: option.splits)

text \<open>
  Claim C8. In every reachable state each CHECKOUT record has a CHECKIN record of the same
  reservation earlier in the log. Check-out is enabled exactly when the possession is
  CHECKED_IN and no CHECKOUT record exists; when it is enabled the CHECKIN record exists,
  and when it is not, a check-out submission changes nothing.
\<close>

theorem checkout_requires_checkin:
  assumes "reachable st"
  shows "(\<forall>i < length (checklists st). phase (checklists st ! i) = CHECKOUT \<longrightarrow>
            (\<exists>j < i. phase (checklists st ! j) = CHECKIN \<and>
                     checklistReservation (checklists st ! j) =
                       checklistReservation (checklists st ! i))) \<and>
         canCheckout st rid =
           (possession st rid = CHECKED_IN \<and> \<not> hasRecord (checklists st) rid CHECKOUT) \<and>
         (canCheckout st rid \<longrightarrow> hasRecord (checklists st) rid CHECKIN) \<and>
         (\<not> canCheckout st rid \<longrightarrow> submitCheckout en st rid caller items txt = st)"
proof -
  have inv: "possessionInv st"
    using assms by (rule reachable_possessionInv)
  have a: "\<forall>i < length (checklists st). phase (checklists st ! i) = CHECKOUT \<longrightarrow>
            (\<exists>j < i. phase (checklists st ! j) = CHECKIN \<and>
                     checklistReservation (checklists st ! j) =
                       checklistReservation (checklists st ! i))"
    using inv unfolding possessionInv_def checkoutsPreceded_def by (rule conjunct1)
  have b: "canCheckout st rid \<longrightarrow> hasRecord (checklists st) rid CHECKIN"
    using inv unfolding possessionInv_def canCheckout_def by blast
  have c: "\<not> canCheckout st rid \<longrightarrow> submitCheckout en st rid caller items txt = st"
    using submitCheckout_refused by blast
  show ?thesis
    using a b c by (simp add: canCheckout_def)
qed

text \<open>
  Scenario A checked in and out: the log is CHECKIN, CHECKOUT; a check-out of the booked
  but not yet checked-in reservation is refused.
\<close>

theorem checkout_requires_checkin_witness:
  "reachable scenarioCheckedOut \<and>
   map phase (checklists scenarioCheckedOut) = [CHECKIN, CHECKOUT] \<and>
   (\<exists>j < 1. phase (checklists scenarioCheckedOut ! j) = CHECKIN \<and>
             checklistReservation (checklists scenarioCheckedOut ! j) =
               checklistReservation (checklists scenarioCheckedOut ! 1)) \<and>
   submitCheckout scenarioEnv scenarioBooked 0 1 [(1, OK), (2, OK)] [] = scenarioBooked"
proof -
  have r0: "reachable scenarioState"
    unfolding scenarioState_def by (rule reachable.init)
  have r1: "reachable scenarioBooked"
    unfolding scenarioBooked_def using r0 by (rule reachable.request)
  have r2: "reachable scenarioCheckedIn"
    unfolding scenarioCheckedIn_def using r1 by (rule reachable.checkin)
  have r3: "reachable scenarioCheckedOut"
    unfolding scenarioCheckedOut_def using r2 by (rule reachable.checkout)
  note t = checkout_requires_checkin [OF r3, of 0 scenarioEnv 1 "[]" "[]"]
  have m: "map phase (checklists scenarioCheckedOut) = [CHECKIN, CHECKOUT]"
    using scenarioCheckedOut_checklists by (rule conjunct1)
  then have len: "1 < length (checklists scenarioCheckedOut)"
    and out: "phase (checklists scenarioCheckedOut ! 1) = CHECKOUT"
    by (auto simp add: map_eq_Cons_conv)
  have e: "\<exists>j < 1. phase (checklists scenarioCheckedOut ! j) = CHECKIN \<and>
             checklistReservation (checklists scenarioCheckedOut ! j) =
               checklistReservation (checklists scenarioCheckedOut ! 1)"
    using t [THEN conjunct1, rule_format, OF len out] .
  have n: "\<not> canCheckout scenarioBooked 0"
    by (simp add: canCheckout_def scenarioBooked_eq)
  have s: "submitCheckout scenarioEnv scenarioBooked 0 1 [(1, OK), (2, OK)] [] = scenarioBooked"
    using checkout_requires_checkin [OF r1, of 0 scenarioEnv 1 "[(1, OK), (2, OK)]" "[]"] n
    by blast
  show ?thesis using r3 m e s by blast
qed

end
